theory Spec2Isabelle
  imports Main
begin

section \<open>The CSS selector builder of 06-objects-tasks.js\<close>

subsection \<open>Data model\<close>

text \<open>
  The source throws \<^verbatim>\<open>new Error(message)\<close> with one of two messages. The two
  constructors stand for the two messages; \<open>message\<close> gives the text.
\<close>

datatype error = DuplicateFragmentError | OutOfOrderError

fun message :: "error \<Rightarrow> string" where
  "message DuplicateFragmentError =
     ''Element, id and pseudo-element should not occur more then one time inside the selector''"
| "message OutOfOrderError =
     ''Selector parts should be arranged in the following order: element, id, class, attribute, pseudo-class, pseudo-element''"

text \<open>
  An instance of \<^verbatim>\<open>MySuperBaseElementSelector\<close>. The constructor sets \<open>arr\<close> and
  \<open>order\<close>; the three flags are absent properties until a method sets them, and an
  absent property reads as \<^verbatim>\<open>undefined\<close>, which is falsy: \<open>False\<close> here.
\<close>

record selector =
  arr :: "string list"
  order :: "int list"
  hasElement :: bool
  hasId :: bool
  hasPseudoElement :: bool

definition MySuperBaseElementSelector :: selector where
  "MySuperBaseElementSelector =
     \<lparr>arr = [], order = [], hasElement = False, hasId = False, hasPseudoElement = False\<rparr>"

subsection \<open>The order check\<close>

text \<open>
  \<^verbatim>\<open>xs.slice(-k)\<close>: the last \<open>k\<close> elements, the whole array when it is shorter.
\<close>

definition slice_neg :: "nat \<Rightarrow> 'a list \<Rightarrow> 'a list" where
  "slice_neg k xs = drop (length xs - k) xs"

text \<open>An array is an object, and every object is truthy, the empty array too.\<close>

definition truthy :: "'a list \<Rightarrow> bool" where
  "truthy xs = True"

text \<open>
  \<^verbatim>\<open>array > number\<close>: the array becomes the text of its elements joined by commas, and
  that text becomes a number: the empty text is 0, the text of one number is that number,
  and anything with a comma is NaN (\<open>None\<close>), which compares false with everything.
\<close>

fun array_to_number :: "int list \<Rightarrow> int option" where
  "array_to_number [] = Some 0"
| "array_to_number [x] = Some x"
| "array_to_number (x # y # ys) = None"

definition array_gt :: "int list \<Rightarrow> int \<Rightarrow> bool" where
  "array_gt xs n = (case array_to_number xs of None \<Rightarrow> False | Some x \<Rightarrow> x > n)"

text \<open>\<open>Some e\<close>: the call throws \<open>e\<close>. \<open>None\<close>: it returns.\<close>

definition checkOrder :: "int \<Rightarrow> selector \<Rightarrow> error option" where
  "checkOrder number this =
     (if truthy (slice_neg 1 (order this)) \<and> array_gt (slice_neg 1 (order this)) number
      then Some OutOfOrderError else None)"

subsection \<open>The append methods\<close>

text \<open>
  A method takes the instance and gives back what the call did (\<open>None\<close>: it returned
  \<^verbatim>\<open>this\<close>; \<open>Some e\<close>: it threw \<open>e\<close>) with the instance as the call left it. The
  statements run in the source's order: the duplicate check, the flag, the push onto
  \<open>arr\<close>, the order check, the push onto \<open>order\<close>.
\<close>

type_synonym method_result = "error option \<times> selector"

definition element :: "string \<Rightarrow> selector \<Rightarrow> method_result" where
  "element v this =
     (if hasElement this then (Some DuplicateFragmentError, this)
      else
        let this1 = this\<lparr>hasElement := True\<rparr>;
            this2 = this1\<lparr>arr := arr this1 @ [v]\<rparr>
        in case checkOrder 1 this2 of
             Some e \<Rightarrow> (Some e, this2)
           | None \<Rightarrow> (None, this2\<lparr>order := order this2 @ [1]\<rparr>))"

definition id_sel :: "string \<Rightarrow> selector \<Rightarrow> method_result" where
  "id_sel v this =
     (if hasId this then (Some DuplicateFragmentError, this)
      else
        let this1 = this\<lparr>hasId := True\<rparr>;
            this2 = this1\<lparr>arr := arr this1 @ [''#'' @ v]\<rparr>
        in case checkOrder 2 this2 of
             Some e \<Rightarrow> (Some e, this2)
           | None \<Rightarrow> (None, this2\<lparr>order := order this2 @ [2]\<rparr>))"

definition class1 :: "string \<Rightarrow> selector \<Rightarrow> method_result" where
  "class1 v this =
     (let this1 = this\<lparr>arr := arr this @ [''.'' @ v]\<rparr>
      in case checkOrder 3 this1 of
           Some e \<Rightarrow> (Some e, this1)
         | None \<Rightarrow> (None, this1\<lparr>order := order this1 @ [3]\<rparr>))"

definition attr :: "string \<Rightarrow> selector \<Rightarrow> method_result" where
  "attr v this =
     (let this1 = this\<lparr>arr := arr this @ [''['' @ v @ '']'']\<rparr>
      in case checkOrder 4 this1 of
           Some e \<Rightarrow> (Some e, this1)
         | None \<Rightarrow> (None, this1\<lparr>order := order this1 @ [4]\<rparr>))"

definition pseudoClass :: "string \<Rightarrow> selector \<Rightarrow> method_result" where
  "pseudoClass v this =
     (let this1 = this\<lparr>arr := arr this @ ['':'' @ v]\<rparr>
      in case checkOrder 5 this1 of
           Some e \<Rightarrow> (Some e, this1)
         | None \<Rightarrow> (None, this1\<lparr>order := order this1 @ [5]\<rparr>))"

definition pseudoElement :: "string \<Rightarrow> selector \<Rightarrow> method_result" where
  "pseudoElement v this =
     (if hasPseudoElement this then (Some DuplicateFragmentError, this)
      else
        let this1 = this\<lparr>hasPseudoElement := True\<rparr>;
            this2 = this1\<lparr>arr := arr this1 @ [''::'' @ v]\<rparr>
        in case checkOrder 6 this2 of
             Some e \<Rightarrow> (Some e, this2)
           | None \<Rightarrow> (None, this2\<lparr>order := order this2 @ [6]\<rparr>))"

text \<open>\<^verbatim>\<open>this.arr.join('')\<close>: the chunks one after the other.\<close>

definition stringify :: "selector \<Rightarrow> string" where
  "stringify this = concat (arr this)"

text \<open>
  The six append calls as data, to speak about "every append operation": the call, the
  rank it checks and records, the flag it tests first (if any) and the chunk it pushes.
\<close>

datatype append_op =
  Element string | Id string | Class string | Attr string
  | PseudoClass string | PseudoElement string

fun append_fragment :: "append_op \<Rightarrow> selector \<Rightarrow> method_result" where
  "append_fragment (Element v) this = element v this"
| "append_fragment (Id v) this = id_sel v this"
| "append_fragment (Class v) this = class1 v this"
| "append_fragment (Attr v) this = attr v this"
| "append_fragment (PseudoClass v) this = pseudoClass v this"
| "append_fragment (PseudoElement v) this = pseudoElement v this"

fun rank :: "append_op \<Rightarrow> int" where
  "rank (Element v) = 1"
| "rank (Id v) = 2"
| "rank (Class v) = 3"
| "rank (Attr v) = 4"
| "rank (PseudoClass v) = 5"
| "rank (PseudoElement v) = 6"

fun seen :: "append_op \<Rightarrow> selector \<Rightarrow> bool" where
  "seen (Element v) this = hasElement this"
| "seen (Id v) this = hasId this"
| "seen (PseudoElement v) this = hasPseudoElement this"
| "seen _ this = False"

fun fragment :: "append_op \<Rightarrow> string" where
  "fragment (Element v) = v"
| "fragment (Id v) = ''#'' @ v"
| "fragment (Class v) = ''.'' @ v"
| "fragment (Attr v) = ''['' @ v @ '']''"
| "fragment (PseudoClass v) = '':'' @ v"
| "fragment (PseudoElement v) = ''::'' @ v"

text \<open>
  A chain of calls \<^verbatim>\<open>b.m1(v1).m2(v2)...\<close>: each call runs on the instance the one
  before returned, and the first throw ends the chain.
\<close>

fun chain :: "append_op list \<Rightarrow> selector \<Rightarrow> error + selector" where
  "chain [] this = Inr this"
| "chain (c # cs) this =
     (case append_fragment c this of
        (Some e, this') \<Rightarrow> Inl e
      | (None, this') \<Rightarrow> chain cs this')"

subsection \<open>Instances in a store\<close>

text \<open>
  \<^verbatim>\<open>combine\<close> and the facade take and return references to instances, so the
  instances live in a store: an address is an index, \<^verbatim>\<open>new\<close> adds at the end. A
  program only holds references that \<^verbatim>\<open>new\<close> gave it; a call through any other
  address is not a run of the program, and is \<open>None\<close>.
\<close>

type_synonym addr = nat
type_synonym heap = "selector list"
type_synonym call_result = "((error + addr) \<times> heap) option"

definition deref :: "heap \<Rightarrow> addr \<Rightarrow> selector option" where
  "deref h a = (if a < length h then Some (h ! a) else None)"

definition new :: "heap \<Rightarrow> addr \<times> heap" where
  "new h = (length h, h @ [MySuperBaseElementSelector])"

text \<open>\<^verbatim>\<open>this.m(v)\<close> for an append method \<open>m\<close>: the method returns \<^verbatim>\<open>this\<close>.\<close>

definition invoke :: "addr \<Rightarrow> (selector \<Rightarrow> method_result) \<Rightarrow> heap \<Rightarrow> call_result" where
  "invoke this m h =
     (case deref h this of
        None \<Rightarrow> None
      | Some s \<Rightarrow>
          (case m s of
             (Some e, s') \<Rightarrow> Some (Inl e, h[this := s'])
           | (None, s') \<Rightarrow> Some (Inr this, h[this := s'])))"

text \<open>\<^verbatim>\<open>this.p = v\<close>, as the update \<open>f\<close> of the instance.\<close>

definition assign :: "addr \<Rightarrow> (selector \<Rightarrow> selector) \<Rightarrow> heap \<Rightarrow> heap option" where
  "assign this f h =
     (case deref h this of None \<Rightarrow> None | Some s \<Rightarrow> Some (h[this := f s]))"

definition stringify_at :: "addr \<Rightarrow> heap \<Rightarrow> string option" where
  "stringify_at this h = map_option stringify (deref h this)"

text \<open>
  \<^verbatim>\<open>combine\<close>: the right-hand side reads both arguments first, then \<open>arr\<close> of the
  receiver is assigned. The receiver may be one of the arguments.
\<close>

definition combine :: "addr \<Rightarrow> addr \<Rightarrow> string \<Rightarrow> addr \<Rightarrow> heap \<Rightarrow> call_result" where
  "combine this selector1 combinator selector2 h =
     (case (stringify_at selector1 h, stringify_at selector2 h) of
        (Some t1, Some t2) \<Rightarrow>
          (case assign this (\<lambda>s. s\<lparr>arr := [t1, '' '' @ combinator @ '' '', t2]\<rparr>) h of
             None \<Rightarrow> None
           | Some h' \<Rightarrow> Some (Inr this, h'))
      | _ \<Rightarrow> None)"

subsection \<open>The facade \<^verbatim>\<open>cssSelectorBuilder\<close>\<close>

text \<open>
  \<open>then_set f r\<close>: the statement after the method call runs when the call returned,
  and a throw skips it.
\<close>

definition then_set :: "(selector \<Rightarrow> selector) \<Rightarrow> call_result \<Rightarrow> call_result" where
  "then_set f r =
     (case r of
        None \<Rightarrow> None
      | Some (Inl e, h) \<Rightarrow> Some (Inl e, h)
      | Some (Inr inst, h) \<Rightarrow>
          (case assign inst f h of None \<Rightarrow> None | Some h' \<Rightarrow> Some (Inr inst, h')))"

definition cssSelectorBuilder_element :: "string \<Rightarrow> heap \<Rightarrow> call_result" where
  "cssSelectorBuilder_element v h =
     (case new h of (inst, h1) \<Rightarrow>
        then_set (\<lambda>s. s\<lparr>hasElement := True\<rparr>) (invoke inst (element v) h1))"

definition cssSelectorBuilder_id :: "string \<Rightarrow> heap \<Rightarrow> call_result" where
  "cssSelectorBuilder_id v h =
     (case new h of (inst, h1) \<Rightarrow>
        then_set (\<lambda>s. s\<lparr>hasId := True\<rparr>) (invoke inst (id_sel v) h1))"

definition cssSelectorBuilder_class :: "string \<Rightarrow> heap \<Rightarrow> call_result" where
  "cssSelectorBuilder_class v h =
     (case new h of (inst, h1) \<Rightarrow> invoke inst (class1 v) h1)"

definition cssSelectorBuilder_attr :: "string \<Rightarrow> heap \<Rightarrow> call_result" where
  "cssSelectorBuilder_attr v h =
     (case new h of (inst, h1) \<Rightarrow> invoke inst (attr v) h1)"

definition cssSelectorBuilder_pseudoClass :: "string \<Rightarrow> heap \<Rightarrow> call_result" where
  "cssSelectorBuilder_pseudoClass v h =
     (case new h of (inst, h1) \<Rightarrow> invoke inst (pseudoClass v) h1)"

definition cssSelectorBuilder_pseudoElement :: "string \<Rightarrow> heap \<Rightarrow> call_result" where
  "cssSelectorBuilder_pseudoElement v h =
     (case new h of (inst, h1) \<Rightarrow>
        then_set (\<lambda>s. s\<lparr>hasPseudoElement := True\<rparr>) (invoke inst (pseudoElement v) h1))"

text \<open>
  The arguments of the facade's \<^verbatim>\<open>combine\<close> are references the caller held before
  the call, so they are addresses of the store as it is before \<^verbatim>\<open>new\<close>.
\<close>

definition cssSelectorBuilder_combine :: "addr \<Rightarrow> string \<Rightarrow> addr \<Rightarrow> heap \<Rightarrow> call_result" where
  "cssSelectorBuilder_combine selector1 combinator selector2 h =
     (if selector1 < length h \<and> selector2 < length h
      then case new h of (inst, h1) \<Rightarrow> combine inst selector1 combinator selector2 h1
      else None)"

fun facade :: "append_op \<Rightarrow> heap \<Rightarrow> call_result" where
  "facade (Element v) h = cssSelectorBuilder_element v h"
| "facade (Id v) h = cssSelectorBuilder_id v h"
| "facade (Class v) h = cssSelectorBuilder_class v h"
| "facade (Attr v) h = cssSelectorBuilder_attr v h"
| "facade (PseudoClass v) h = cssSelectorBuilder_pseudoClass v h"
| "facade (PseudoElement v) h = cssSelectorBuilder_pseudoElement v h"

subsection \<open>Programs\<close>

text \<open>
  What a client can do, one call after the other: a facade call, or a method call on an
  instance it holds. The run goes on after a throw (the client may catch it), with the
  store as the failed call left it.
\<close>

datatype call =
  Facade append_op
  | FacadeCombine addr string addr
  | Method addr append_op
  | MethodCombine addr addr string addr

fun exec :: "call \<Rightarrow> heap \<Rightarrow> call_result" where
  "exec (Facade c) h = facade c h"
| "exec (FacadeCombine a c b) h = cssSelectorBuilder_combine a c b h"
| "exec (Method this c) h = invoke this (append_fragment c) h"
| "exec (MethodCombine this a c b) h = combine this a c b h"

fun is_facade :: "call \<Rightarrow> bool" where
  "is_facade (Facade c) = True"
| "is_facade (FacadeCombine a c b) = True"
| "is_facade (Method this c) = False"
| "is_facade (MethodCombine this a c b) = False"

fun run :: "call list \<Rightarrow> heap \<Rightarrow> heap option" where
  "run [] h = Some h"
| "run (c # cs) h = (case exec c h of None \<Rightarrow> None | Some (r, h') \<Rightarrow> run cs h')"

subsection \<open>The history of one instance\<close>

text \<open>
  What can happen to one instance after \<^verbatim>\<open>new\<close>: an append call (that returns or
  throws), or a \<^verbatim>\<open>combine\<close> call with the instance as receiver, which assigns \<open>arr\<close>
  from the two texts read off the arguments. \<open>history ops\<close> is the instance after the
  calls \<open>ops\<close>, the oldest first.
\<close>

datatype op = Append append_op | Combined string string string

fun apply_op :: "op \<Rightarrow> selector \<Rightarrow> selector" where
  "apply_op (Append c) this = snd (append_fragment c this)"
| "apply_op (Combined t1 combinator t2) this =
     this\<lparr>arr := [t1, '' '' @ combinator @ '' '', t2]\<rparr>"

definition history :: "op list \<Rightarrow> selector" where
  "history ops = foldl (\<lambda>this c. apply_op c this) MySuperBaseElementSelector ops"

text \<open>The flag that an append call of a singleton kind sets.\<close>

fun mark :: "append_op \<Rightarrow> selector \<Rightarrow> selector" where
  "mark (Element v) this = this\<lparr>hasElement := True\<rparr>"
| "mark (Id v) this = this\<lparr>hasId := True\<rparr>"
| "mark (PseudoElement v) this = this\<lparr>hasPseudoElement := True\<rparr>"
| "mark _ this = this"

section \<open>\<^verbatim>\<open>getJSON\<close> and \<open>fromJSON\<close>\<close>

subsection \<open>Key-value objects\<close>

text \<open>
  The values a JSON text can carry. Numbers are the integers among the host's numbers.
\<close>

datatype json =
  JNull | JBool bool | JNum int | JStr string | JArr "json list" | JObj "(string \<times> json) list"



subsection \<open>Assignment to a property\<close>





subsection \<open>The two functions\<close>








subsection \<open>An encoder and its decoder\<close>




section \<open>Properties\<close>

subsection \<open>What an append call does, in one equation\<close>

lemma checkOrder_eq:
  "0 \<le> n \<Longrightarrow> checkOrder n this =
     (if order this \<noteq> [] \<and> n < last (order this) then Some OutOfOrderError else None)"
  by (cases "order this" rule: rev_cases)
    (simp_all add: checkOrder_def slice_neg_def truthy_def array_gt_def)

lemma append_fragment_eq:
  "append_fragment c this =
     (if seen c this then (Some DuplicateFragmentError, this)
      else if order this \<noteq> [] \<and> rank c < last (order this)
        then (Some OutOfOrderError, mark c (this\<lparr>arr := arr this @ [fragment c]\<rparr>))
        else (None, mark c (this\<lparr>arr := arr this @ [fragment c],
                                   order := order this @ [rank c]\<rparr>)))"
  by (cases c) (simp_all add: element_def id_sel_def class1_def attr_def pseudoClass_def
      pseudoElement_def checkOrder_eq Let_def)

lemma order_mark [simp]: "order (mark c this) = order this"
  by (cases c) simp_all

lemma arr_mark [simp]: "arr (mark c this) = arr this"
  by (cases c) simp_all

lemmas eval_defs =
  element_def id_sel_def class1_def attr_def pseudoClass_def pseudoElement_def
  MySuperBaseElementSelector_def checkOrder_def slice_neg_def truthy_def array_gt_def
  stringify_def

subsection \<open>Failed calls\<close>

text \<open>
  Claim C9. When \<open>element\<close>, \<open>id\<close> or \<open>pseudoElement\<close> throws the duplicate error,
  the instance is as it was before the call: its fragments, its ranks and its three
  flags. The duplicate check is the first statement of each of the three methods.
\<close>

theorem duplicate_leaves_instance:
  "(fst (element v this) = Some DuplicateFragmentError \<longrightarrow> snd (element v this) = this) \<and>
   (fst (id_sel v this) = Some DuplicateFragmentError \<longrightarrow> snd (id_sel v this) = this) \<and>
   (fst (pseudoElement v this) = Some DuplicateFragmentError \<longrightarrow>
      snd (pseudoElement v this) = this)"
  using append_fragment_eq [of "Element v" this] append_fragment_eq [of "Id v" this]
    append_fragment_eq [of "PseudoElement v" this]
  by (simp split: if_splits)

theorem duplicate_leaves_instance_witness:
  "fst (element ''div'' (snd (element ''table'' MySuperBaseElementSelector)))
     = Some DuplicateFragmentError \<and>
   snd (element ''div'' (snd (element ''table'' MySuperBaseElementSelector)))
     = snd (element ''table'' MySuperBaseElementSelector) \<and>
   fst (id_sel ''a'' (snd (id_sel ''b'' MySuperBaseElementSelector)))
     = Some DuplicateFragmentError \<and>
   snd (id_sel ''a'' (snd (id_sel ''b'' MySuperBaseElementSelector)))
     = snd (id_sel ''b'' MySuperBaseElementSelector) \<and>
   fst (pseudoElement ''a'' (snd (pseudoElement ''b'' MySuperBaseElementSelector)))
     = Some DuplicateFragmentError \<and>
   snd (pseudoElement ''a'' (snd (pseudoElement ''b'' MySuperBaseElementSelector)))
     = snd (pseudoElement ''b'' MySuperBaseElementSelector)"
proof -
  have e: "fst (element ''div'' (snd (element ''table'' MySuperBaseElementSelector)))
     = Some DuplicateFragmentError"
    by (simp add: eval_defs)
  have i: "fst (id_sel ''a'' (snd (id_sel ''b'' MySuperBaseElementSelector)))
     = Some DuplicateFragmentError"
    by (simp add: eval_defs)
  have p: "fst (pseudoElement ''a'' (snd (pseudoElement ''b'' MySuperBaseElementSelector)))
     = Some DuplicateFragmentError"
    by (simp add: eval_defs)
  from e i p
    duplicate_leaves_instance [of "''div''" "snd (element ''table'' MySuperBaseElementSelector)"]
    duplicate_leaves_instance [of "''a''" "snd (id_sel ''b'' MySuperBaseElementSelector)"]
    duplicate_leaves_instance [of "''a''" "snd (pseudoElement ''b'' MySuperBaseElementSelector)"]
  show ?thesis by blast
qed

text \<open>
  Claim C5, as the code has it. Every append method pushes its chunk onto \<open>arr\<close> (and
  sets its flag) before it calls \<open>checkOrder\<close>, and pushes the rank after. So a call
  that throws leaves the ranks as they were; after the duplicate error the whole
  instance is as it was; after the order error the rejected chunk is already at the end
  of \<open>arr\<close> and the flag of the rejected kind is already set, and nothing else changed.
\<close>

theorem failed_append_state:
  "fst (append_fragment c this) = Some e \<Longrightarrow>
     order (snd (append_fragment c this)) = order this \<and>
     (e = DuplicateFragmentError \<longrightarrow> snd (append_fragment c this) = this) \<and>
     (e = OutOfOrderError \<longrightarrow>
        snd (append_fragment c this) = mark c (this\<lparr>arr := arr this @ [fragment c]\<rparr>))"
  by (simp add: append_fragment_eq split: if_splits)

theorem failed_append_state_witness:
  "fst (append_fragment (Class ''c'') \<lparr>arr = [''[b]''], order = [4], hasElement = False,
      hasId = False, hasPseudoElement = False\<rparr>) = Some OutOfOrderError \<and>
   snd (append_fragment (Class ''c'') \<lparr>arr = [''[b]''], order = [4], hasElement = False,
      hasId = False, hasPseudoElement = False\<rparr>) =
     \<lparr>arr = [''[b]'', ''.c''], order = [4], hasElement = False, hasId = False,
      hasPseudoElement = False\<rparr> \<and>
   fst (append_fragment (Id ''x'') \<lparr>arr = [''#y''], order = [2], hasElement = False,
      hasId = True, hasPseudoElement = False\<rparr>) = Some DuplicateFragmentError \<and>
   snd (append_fragment (Id ''x'') \<lparr>arr = [''#y''], order = [2], hasElement = False,
      hasId = True, hasPseudoElement = False\<rparr>) =
     \<lparr>arr = [''#y''], order = [2], hasElement = False, hasId = True,
      hasPseudoElement = False\<rparr>"
proof -
  have t: "fst (append_fragment (Class ''c'') \<lparr>arr = [''[b]''], order = [4],
      hasElement = False, hasId = False, hasPseudoElement = False\<rparr>) = Some OutOfOrderError"
    by (simp add: eval_defs)
  have d: "fst (append_fragment (Id ''x'') \<lparr>arr = [''#y''], order = [2], hasElement = False,
      hasId = True, hasPseudoElement = False\<rparr>) = Some DuplicateFragmentError"
    by (simp add: eval_defs)
  from t d failed_append_state [OF t] failed_append_state [OF d] show ?thesis by simp
qed

text \<open>
  The claim as the spec words it (a failed append leaves the fragments and the flags
  unchanged) fails: \<^verbatim>\<open>id('x')\<close> on a new instance, then \<^verbatim>\<open>element('div')\<close>. The
  second call throws the order error, and the instance has \<^verbatim>\<open>'div'\<close> in \<open>arr\<close> and
  \<open>hasElement\<close> set.
\<close>

theorem failed_append_changes_instance:
  "fst (append_fragment (Element ''div'')
         (snd (append_fragment (Id ''x'') MySuperBaseElementSelector)))
     = Some OutOfOrderError \<and>
   arr (snd (append_fragment (Id ''x'') MySuperBaseElementSelector)) = [''#x''] \<and>
   hasElement (snd (append_fragment (Id ''x'') MySuperBaseElementSelector)) = False \<and>
   arr (snd (append_fragment (Element ''div'')
          (snd (append_fragment (Id ''x'') MySuperBaseElementSelector)))) = [''#x'', ''div''] \<and>
   hasElement (snd (append_fragment (Element ''div'')
          (snd (append_fragment (Id ''x'') MySuperBaseElementSelector)))) = True \<and>
   snd (append_fragment (Element ''div'')
          (snd (append_fragment (Id ''x'') MySuperBaseElementSelector)))
     \<noteq> snd (append_fragment (Id ''x'') MySuperBaseElementSelector)"
  by (simp add: eval_defs)

subsection \<open>When a call throws\<close>

text \<open>
  Claim C3, as the code has it. An append call throws the order error exactly when its
  duplicate check does not fire (\<open>class\<close>, \<open>attr\<close> and \<open>pseudoClass\<close> have none;
  \<open>element\<close>, \<open>id\<close> and \<open>pseudoElement\<close> pass it when their flag is unset) and the
  rank recorded last is strictly greater than the rank of the call. With no rank
  recorded, or a last rank less than or equal to the new one, it does not throw the
  order error. When the flag of the kind is set the call throws the duplicate error,
  whatever the ranks. And on any instance where \<open>class\<close> then \<open>attr\<close> returned, the next
  \<open>class\<close> call throws the order error (ranks 3, 4, 3).
\<close>

theorem out_of_order_iff:
  "(fst (append_fragment c this) = Some OutOfOrderError \<longleftrightarrow>
      \<not> seen c this \<and> order this \<noteq> [] \<and> rank c < last (order this)) \<and>
   (seen c this \<longrightarrow> fst (append_fragment c this) = Some DuplicateFragmentError) \<and>
   (\<forall>s. chain [Class v1, Attr v2] this = Inr s \<longrightarrow>
      fst (append_fragment (Class v3) s) = Some OutOfOrderError)"
proof -
  have a: "fst (append_fragment c this) = Some OutOfOrderError \<longleftrightarrow>
      \<not> seen c this \<and> order this \<noteq> [] \<and> rank c < last (order this)"
    by (simp add: append_fragment_eq)
  have b: "seen c this \<longrightarrow> fst (append_fragment c this) = Some DuplicateFragmentError"
    by (simp add: append_fragment_eq)
  have c: "fst (append_fragment (Class v3) s) = Some OutOfOrderError"
    if "chain [Class v1, Attr v2] this = Inr s" for s
  proof -
    from that have "last (order s) = 4 \<and> order s \<noteq> []"
      by (auto simp: append_fragment_eq split: if_splits)
    then show ?thesis by (simp add: append_fragment_eq)
  qed
  from a b c show ?thesis by blast
qed

theorem out_of_order_iff_witness:
  "chain [Class ''a'', Attr ''b''] MySuperBaseElementSelector =
     Inr \<lparr>arr = [''.a'', ''[b]''], order = [3, 4], hasElement = False, hasId = False,
          hasPseudoElement = False\<rparr> \<and>
   fst (append_fragment (Class ''c'') \<lparr>arr = [''.a'', ''[b]''], order = [3, 4],
          hasElement = False, hasId = False, hasPseudoElement = False\<rparr>)
     = Some OutOfOrderError \<and>
   fst (append_fragment (Attr ''d'') \<lparr>arr = [''.a'', ''[b]''], order = [3, 4],
          hasElement = False, hasId = False, hasPseudoElement = False\<rparr>) = None \<and>
   fst (append_fragment (Id ''x'') \<lparr>arr = [''#y'', ''.a''], order = [2, 3],
          hasElement = False, hasId = True, hasPseudoElement = False\<rparr>)
     = Some DuplicateFragmentError"
proof -
  let ?s = "\<lparr>arr = [''.a'', ''[b]''], order = [3, 4], hasElement = False, hasId = False,
          hasPseudoElement = False\<rparr>"
  let ?t = "\<lparr>arr = [''#y'', ''.a''], order = [2, 3], hasElement = False, hasId = True,
          hasPseudoElement = False\<rparr>"
  have r: "chain [Class ''a'', Attr ''b''] MySuperBaseElementSelector = Inr ?s"
    by (simp add: eval_defs)
  from r out_of_order_iff [of "Class ''c''" MySuperBaseElementSelector "''a''" "''b''" "''c''"]
  have o: "fst (append_fragment (Class ''c'') ?s) = Some OutOfOrderError" by blast
  have "\<not> (\<not> seen (Attr ''d'') ?s \<and> order ?s \<noteq> [] \<and> rank (Attr ''d'') < last (order ?s))"
    by simp
  with out_of_order_iff [of "Attr ''d''" ?s]
  have "fst (append_fragment (Attr ''d'') ?s) \<noteq> Some OutOfOrderError" by blast
  moreover have "fst (append_fragment (Attr ''d'') ?s) \<noteq> Some DuplicateFragmentError"
    by (simp add: eval_defs)
  ultimately have n: "fst (append_fragment (Attr ''d'') ?s) = None"
    by (cases "fst (append_fragment (Attr ''d'') ?s)") (auto intro: error.exhaust)
  have "seen (Id ''x'') ?t" by simp
  with out_of_order_iff [of "Id ''x''" ?t]
  have d: "fst (append_fragment (Id ''x'') ?t) = Some DuplicateFragmentError" by blast
  from r o n d show ?thesis by blast
qed

text \<open>
  The claim as the spec words it (every append call throws the order error when the last
  rank is greater than its own) fails: after \<^verbatim>\<open>element('a').id('b')\<close> the last rank
  is 2, and \<^verbatim>\<open>element('c')\<close>, of rank 1, throws the duplicate error, not the order
  error.
\<close>

theorem duplicate_wins_over_order:
  "chain [Element ''a'', Id ''b''] MySuperBaseElementSelector =
     Inr \<lparr>arr = [''a'', ''#b''], order = [1, 2], hasElement = True, hasId = True,
          hasPseudoElement = False\<rparr> \<and>
   rank (Element ''c'') < last [1, 2] \<and>
   fst (append_fragment (Element ''c'') \<lparr>arr = [''a'', ''#b''], order = [1, 2],
          hasElement = True, hasId = True, hasPseudoElement = False\<rparr>)
     = Some DuplicateFragmentError \<and>
   fst (append_fragment (Element ''c'') \<lparr>arr = [''a'', ''#b''], order = [1, 2],
          hasElement = True, hasId = True, hasPseudoElement = False\<rparr>)
     \<noteq> Some OutOfOrderError"
  by (simp add: eval_defs)

text \<open>The flags of an instance say which singleton calls its history holds.\<close>

lemma flags_apply_op:
  "hasElement (apply_op c this) \<longleftrightarrow> hasElement this \<or> (\<exists>w. c = Append (Element w))"
  "hasId (apply_op c this) \<longleftrightarrow> hasId this \<or> (\<exists>w. c = Append (Id w))"
  "hasPseudoElement (apply_op c this) \<longleftrightarrow>
     hasPseudoElement this \<or> (\<exists>w. c = Append (PseudoElement w))"
proof -
  show "hasElement (apply_op c this) \<longleftrightarrow> hasElement this \<or> (\<exists>w. c = Append (Element w))"
  proof (cases c)
    case (Append a)
    then show ?thesis by (cases a) (auto simp: append_fragment_eq)
  qed simp
  show "hasId (apply_op c this) \<longleftrightarrow> hasId this \<or> (\<exists>w. c = Append (Id w))"
  proof (cases c)
    case (Append a)
    then show ?thesis by (cases a) (auto simp: append_fragment_eq)
  qed simp
  show "hasPseudoElement (apply_op c this) \<longleftrightarrow>
     hasPseudoElement this \<or> (\<exists>w. c = Append (PseudoElement w))"
  proof (cases c)
    case (Append a)
    then show ?thesis by (cases a) (auto simp: append_fragment_eq)
  qed simp
qed

lemma flags_foldl:
  "hasElement (foldl (\<lambda>this c. apply_op c this) s ops) \<longleftrightarrow>
     hasElement s \<or> (\<exists>w. Append (Element w) \<in> set ops)"
  "hasId (foldl (\<lambda>this c. apply_op c this) s ops) \<longleftrightarrow>
     hasId s \<or> (\<exists>w. Append (Id w) \<in> set ops)"
  "hasPseudoElement (foldl (\<lambda>this c. apply_op c this) s ops) \<longleftrightarrow>
     hasPseudoElement s \<or> (\<exists>w. Append (PseudoElement w) \<in> set ops)"
  by (induction ops arbitrary: s) (auto simp: flags_apply_op)

lemma flags_history:
  "hasElement (history ops) \<longleftrightarrow> (\<exists>w. Append (Element w) \<in> set ops)"
  "hasId (history ops) \<longleftrightarrow> (\<exists>w. Append (Id w) \<in> set ops)"
  "hasPseudoElement (history ops) \<longleftrightarrow> (\<exists>w. Append (PseudoElement w) \<in> set ops)"
  by (simp_all add: history_def flags_foldl MySuperBaseElementSelector_def)

lemma duplicate_iff_seen:
  "fst (append_fragment c this) = Some DuplicateFragmentError \<longleftrightarrow> seen c this"
  by (simp add: append_fragment_eq)

text \<open>
  Claim C4, as the code has it. On an instance with any history of calls, \<open>element\<close>
  throws the duplicate error exactly when the history holds an earlier \<open>element\<close>
  call, whether that call returned or threw the order error, and the same for \<open>id\<close>
  and for \<open>pseudoElement\<close>: the first call of a kind sets the flag and pushes its chunk
  before the order check. The call does not throw the duplicate error on an instance
  on which no call of its kind was made. In particular the second of two \<open>element\<close>
  calls throws the duplicate error.
\<close>

theorem duplicate_iff_appended_before:
  "(fst (element v (history ops)) = Some DuplicateFragmentError \<longleftrightarrow>
      (\<exists>w. Append (Element w) \<in> set ops)) \<and>
   (fst (id_sel v (history ops)) = Some DuplicateFragmentError \<longleftrightarrow>
      (\<exists>w. Append (Id w) \<in> set ops)) \<and>
   (fst (pseudoElement v (history ops)) = Some DuplicateFragmentError \<longleftrightarrow>
      (\<exists>w. Append (PseudoElement w) \<in> set ops))"
  using duplicate_iff_seen [of "Element v" "history ops"]
    duplicate_iff_seen [of "Id v" "history ops"]
    duplicate_iff_seen [of "PseudoElement v" "history ops"]
  by (simp add: flags_history)

theorem duplicate_iff_appended_before_witness:
  "fst (element ''b'' (history [Append (Element ''a'')])) = Some DuplicateFragmentError \<and>
   fst (id_sel ''b'' (history [Append (Id ''a'')])) = Some DuplicateFragmentError \<and>
   fst (pseudoElement ''b'' (history [Append (PseudoElement ''a'')]))
     = Some DuplicateFragmentError \<and>
   fst (element ''b'' (history [Append (Id ''a''), Append (Class ''c'')])) = Some OutOfOrderError \<and>
   fst (id_sel ''b'' (history [Append (Element ''a'')])) = None \<and>
   fst (pseudoElement ''b'' (history [Append (Element ''a''), Combined ''x'' ''+'' ''y'']))
     = None"
proof -
  have rest: "fst (element ''b'' (history [Append (Id ''a''), Append (Class ''c'')]))
       = Some OutOfOrderError \<and>
     fst (id_sel ''b'' (history [Append (Element ''a'')])) = None \<and>
     fst (pseudoElement ''b'' (history [Append (Element ''a''), Combined ''x'' ''+'' ''y'']))
       = None"
    by (simp add: history_def eval_defs)
  from rest
    duplicate_iff_appended_before [of "''b''" "[Append (Element ''a'')]"]
    duplicate_iff_appended_before [of "''b''" "[Append (Id ''a'')]"]
    duplicate_iff_appended_before [of "''b''" "[Append (PseudoElement ''a'')]"]
  show ?thesis by simp
qed

text \<open>
  The claim as the spec words it (no duplicate error on an instance on which the kind
  has not been appended, a failed append counting for nothing) fails: \<^verbatim>\<open>id('a')\<close> on
  a new instance, then \<^verbatim>\<open>element('z')\<close>, which throws the order error and records no
  rank, then \<^verbatim>\<open>element('e')\<close>, which throws the duplicate error though no
  \<open>element\<close> call has returned.
\<close>

theorem duplicate_after_failed_append:
  "fst (append_fragment (Id ''a'') MySuperBaseElementSelector) = None \<and>
   fst (append_fragment (Element ''z'') (history [Append (Id ''a'')])) = Some OutOfOrderError \<and>
   order (history [Append (Id ''a''), Append (Element ''z'')]) = [2] \<and>
   fst (element ''e'' (history [Append (Id ''a''), Append (Element ''z'')]))
     = Some DuplicateFragmentError"
  by (simp add: history_def eval_defs)

subsection \<open>The text of a selector built in order\<close>

lemma chain_append:
  "chain (xs @ ys) this = (case chain xs this of Inl e \<Rightarrow> Inl e | Inr s \<Rightarrow> chain ys s)"
  by (induction xs arbitrary: this) (auto split: prod.splits option.splits)

text \<open>A run of calls of one rank, of a kind that has no flag.\<close>

lemma chain_same_rank:
  assumes "\<And>v. seen (f v) = (\<lambda>s. False)" "\<And>v. rank (f v) = r" "\<And>v. mark (f v) = (\<lambda>s. s)"
    and "order this = [] \<or> last (order this) \<le> r"
  shows "chain (map f vs) this =
     Inr (this\<lparr>arr := arr this @ map (\<lambda>v. fragment (f v)) vs,
               order := order this @ replicate (length vs) r\<rparr>)"
  using assms(4)
proof (induction vs arbitrary: this)
  case Nil
  then show ?case by simp
next
  case (Cons v vs)
  let ?s = "this\<lparr>arr := arr this @ [fragment (f v)], order := order this @ [r]\<rparr>"
  from Cons.prems have "append_fragment (f v) this = (None, ?s)"
    by (auto simp: append_fragment_eq assms(1-3))
  moreover have "chain (map f vs) ?s =
     Inr (?s\<lparr>arr := arr ?s @ map (\<lambda>v. fragment (f v)) vs,
               order := order ?s @ replicate (length vs) r\<rparr>)"
    by (rule Cons.IH) simp
  ultimately show ?case by (simp add: replicate_app_Cons_same)
qed

text \<open>
  Claim C1. On a new instance, \<open>element\<close> once, \<open>id\<close> once, \<open>class\<close> for each of
  \<open>cs\<close>, \<open>attr\<close> for each of \<open>as\<close>, \<open>pseudoClass\<close> for each of \<open>ps\<close> and
  \<open>pseudoElement\<close> once, chained in that order: no call throws, and \<open>stringify\<close> of
  the instance is the element text, \<open>#\<close> and the id, \<open>.\<close> and each class, each
  attribute in brackets, \<open>:\<close> and each pseudo-class, \<open>::\<close> and the pseudo-element,
  in the order of the calls, and nothing else.
\<close>

theorem stringify_in_order:
  "\<exists>s. chain ([Element e, Id i] @ map Class cs @ map Attr as @ map PseudoClass ps
             @ [PseudoElement pe]) MySuperBaseElementSelector = Inr s \<and>
       stringify s =
         e @ ''#'' @ i @ concat (map (\<lambda>c. ''.'' @ c) cs)
           @ concat (map (\<lambda>a. ''['' @ a @ '']'') as)
           @ concat (map (\<lambda>p. '':'' @ p) ps) @ ''::'' @ pe"
proof -
  define s2 where "s2 = \<lparr>arr = [e, ''#'' @ i], order = [1, 2], hasElement = True, hasId = True,
     hasPseudoElement = False\<rparr>"
  define s3 where "s3 = s2\<lparr>arr := arr s2 @ map (\<lambda>c. ''.'' @ c) cs,
     order := order s2 @ replicate (length cs) 3\<rparr>"
  define s4 where "s4 = s3\<lparr>arr := arr s3 @ map (\<lambda>a. ''['' @ a @ '']'') as,
     order := order s3 @ replicate (length as) 4\<rparr>"
  define s5 where "s5 = s4\<lparr>arr := arr s4 @ map (\<lambda>p. '':'' @ p) ps,
     order := order s4 @ replicate (length ps) 5\<rparr>"
  define s6 where "s6 = s5\<lparr>arr := arr s5 @ [''::'' @ pe], order := order s5 @ [6],
     hasPseudoElement := True\<rparr>"
  have c2: "chain [Element e, Id i] MySuperBaseElementSelector = Inr s2"
    by (simp add: s2_def eval_defs)
  have l2: "last (order s2) \<le> 3" by (simp add: s2_def)
  have c3: "chain (map Class cs) s2 = Inr s3"
    unfolding s3_def using chain_same_rank [of Class 3 s2 cs] l2 by (simp add: fun_eq_iff)
  have l3: "order s3 \<noteq> [] \<and> last (order s3) \<le> 4"
    by (simp add: s3_def s2_def last_append)
  have c4: "chain (map Attr as) s3 = Inr s4"
    unfolding s4_def using chain_same_rank [of Attr 4 s3 as] l3 by (simp add: fun_eq_iff)
  have l4: "order s4 \<noteq> [] \<and> last (order s4) \<le> 5"
    using l3 by (simp add: s4_def last_append)
  have c5: "chain (map PseudoClass ps) s4 = Inr s5"
    unfolding s5_def using chain_same_rank [of PseudoClass 5 s4 ps] l4 by (simp add: fun_eq_iff)
  have l5: "order s5 \<noteq> [] \<and> last (order s5) \<le> 6 \<and> \<not> hasPseudoElement s5"
    using l4 by (simp add: s5_def s4_def s3_def s2_def last_append)
  have c6: "chain [PseudoElement pe] s5 = Inr s6"
    using l5 by (simp add: append_fragment_eq s6_def)
  have "chain ([Element e, Id i] @ map Class cs @ map Attr as @ map PseudoClass ps
             @ [PseudoElement pe]) MySuperBaseElementSelector = Inr s6"
    by (simp only: chain_append c2 c3 c4 c5 c6 sum.case)
  moreover have "stringify s6 =
         e @ ''#'' @ i @ concat (map (\<lambda>c. ''.'' @ c) cs)
           @ concat (map (\<lambda>a. ''['' @ a @ '']'') as)
           @ concat (map (\<lambda>p. '':'' @ p) ps) @ ''::'' @ pe"
    by (simp add: stringify_def s6_def s5_def s4_def s3_def s2_def)
  ultimately show ?thesis by blast
qed

theorem stringify_in_order_witness:
  "\<exists>s. chain [Element ''div'', Id ''main'', Class ''c1'', Class ''c2'', Attr ''a1'', Attr ''a2'',
             PseudoClass ''p1'', PseudoClass ''p2'', PseudoElement ''pe'']
          MySuperBaseElementSelector = Inr s \<and>
       stringify s = ''div#main.c1.c2[a1][a2]:p1:p2::pe''"
  using stringify_in_order [of "''div''" "''main''" "[''c1'', ''c2'']" "[''a1'', ''a2'']"
      "[''p1'', ''p2'']" "''pe''"]
  by simp

subsection \<open>Calls through the store\<close>

lemma deref_Some_iff: "deref h a = Some s \<longleftrightarrow> a < length h \<and> s = h ! a"
  by (auto simp: deref_def)

lemma deref_update:
  "deref (h[this := s]) a = (if a = this \<and> this < length h then Some s else deref h a)"
  by (simp add: deref_def)

lemma deref_snoc:
  "deref (h @ [s]) a = (if a = length h then Some s else deref h a)"
  by (auto simp: deref_def nth_append)

lemma append_fragment_new:
  "append_fragment c MySuperBaseElementSelector =
     (None, mark c (MySuperBaseElementSelector\<lparr>arr := [fragment c], order := [rank c]\<rparr>))"
  by (cases c) (simp_all add: append_fragment_eq, simp_all add: MySuperBaseElementSelector_def)

lemma invoke_new:
  "invoke (length h) m (h @ [s]) =
     (case m s of
        (Some e, s') \<Rightarrow> Some (Inl e, h @ [s'])
      | (None, s') \<Rightarrow> Some (Inr (length h), h @ [s']))"
  by (simp add: invoke_def deref_snoc split: prod.splits option.splits)

lemma assign_new: "assign (length h) f (h @ [s]) = Some (h @ [f s])"
  by (simp add: assign_def deref_snoc)

lemma facade_eq:
  "facade c h = Some (Inr (length h), h @ [snd (append_fragment c MySuperBaseElementSelector)])"
  by (cases c)
    (simp_all add: cssSelectorBuilder_element_def cssSelectorBuilder_id_def
      cssSelectorBuilder_class_def cssSelectorBuilder_attr_def
      cssSelectorBuilder_pseudoClass_def cssSelectorBuilder_pseudoElement_def
      new_def invoke_new then_set_def assign_new append_fragment_new
      flip: append_fragment.simps)

lemma combine_eq:
  "combine this a k b h =
     (if this < length h \<and> a < length h \<and> b < length h
      then Some (Inr this,
             h[this := (h ! this)\<lparr>arr := [stringify (h ! a), '' '' @ k @ '' '',
                                          stringify (h ! b)]\<rparr>])
      else None)"
  by (simp add: combine_def stringify_at_def assign_def deref_def)

lemma facade_combine_eq:
  "cssSelectorBuilder_combine a k b h =
     (if a < length h \<and> b < length h
      then Some (Inr (length h),
             h @ [MySuperBaseElementSelector\<lparr>arr := [stringify (h ! a), '' '' @ k @ '' '',
                                                      stringify (h ! b)]\<rparr>])
      else None)"
  by (simp add: cssSelectorBuilder_combine_def new_def combine_eq nth_append)

lemma exec_facade:
  "is_facade f \<Longrightarrow> exec f h = Some (r, h') \<Longrightarrow> r = Inr (length h) \<and> (\<exists>s. h' = h @ [s])"
  by (cases f) (auto simp: facade_eq facade_combine_eq split: if_splits)

lemma exec_length: "exec f h = Some (r, h') \<Longrightarrow> length h \<le> length h'"
  by (cases f)
    (auto simp: facade_eq facade_combine_eq combine_eq invoke_def deref_def
      split: if_splits prod.splits option.splits)

lemma run_length: "run cs h = Some h' \<Longrightarrow> length h \<le> length h'"
proof (induction cs arbitrary: h)
  case Nil
  then show ?case by simp
next
  case (Cons c cs)
  then show ?case
    by (fastforce split: option.splits prod.splits dest: exec_length)
qed

text \<open>
  Claim C2. \<open>combine\<close> on an instance, with arguments \<open>a\<close> and \<open>b\<close> (either may be the
  receiver) and any combinator text \<open>k\<close>: the call returns the receiver, whose \<open>arr\<close>
  is now the three chunks \<open>a.stringify()\<close>, \<open>k\<close> between two spaces, \<open>b.stringify()\<close>,
  as they read before the call, and \<open>stringify\<close> of the receiver is the three joined.
  The facade's \<open>combine\<close> does the same on a new instance. In particular the facade's
  \<open>combine(a, '+', b)\<close> with \<open>a.stringify() = "div#main"\<close> and
  \<open>b.stringify() = "table#data"\<close> gives \<open>"div#main + table#data"\<close>.
\<close>

theorem combine_three_chunks:
  "(deref h this = Some t \<and> deref h a = Some s1 \<and> deref h b = Some s2 \<longrightarrow>
      combine this a k b h =
        Some (Inr this, h[this := t\<lparr>arr := [stringify s1, '' '' @ k @ '' '', stringify s2]\<rparr>]) \<and>
      stringify_at this
          (h[this := t\<lparr>arr := [stringify s1, '' '' @ k @ '' '', stringify s2]\<rparr>])
        = Some (stringify s1 @ '' '' @ k @ '' '' @ stringify s2)) \<and>
   (deref h a = Some s1 \<and> deref h b = Some s2 \<longrightarrow>
      cssSelectorBuilder_combine a k b h =
        Some (Inr (length h),
          h @ [MySuperBaseElementSelector
                 \<lparr>arr := [stringify s1, '' '' @ k @ '' '', stringify s2]\<rparr>]) \<and>
      stringify_at (length h)
          (h @ [MySuperBaseElementSelector
                 \<lparr>arr := [stringify s1, '' '' @ k @ '' '', stringify s2]\<rparr>])
        = Some (stringify s1 @ '' '' @ k @ '' '' @ stringify s2)) \<and>
   (deref h a = Some s1 \<and> deref h b = Some s2 \<and>
    stringify s1 = ''div#main'' \<and> stringify s2 = ''table#data'' \<longrightarrow>
      (\<exists>h'. cssSelectorBuilder_combine a ''+'' b h = Some (Inr (length h), h') \<and>
            stringify_at (length h) h' = Some ''div#main + table#data''))"
proof -
  have m: "combine this a k b h =
        Some (Inr this, h[this := t\<lparr>arr := [stringify s1, '' '' @ k @ '' '', stringify s2]\<rparr>]) \<and>
      stringify_at this
          (h[this := t\<lparr>arr := [stringify s1, '' '' @ k @ '' '', stringify s2]\<rparr>])
        = Some (stringify s1 @ '' '' @ k @ '' '' @ stringify s2)"
    if "deref h this = Some t" "deref h a = Some s1" "deref h b = Some s2"
    using that by (simp add: combine_eq deref_Some_iff stringify_at_def deref_update stringify_def)
  have f: "cssSelectorBuilder_combine a k b h =
        Some (Inr (length h),
          h @ [MySuperBaseElementSelector
                 \<lparr>arr := [stringify s1, '' '' @ k @ '' '', stringify s2]\<rparr>]) \<and>
      stringify_at (length h)
          (h @ [MySuperBaseElementSelector
                 \<lparr>arr := [stringify s1, '' '' @ k @ '' '', stringify s2]\<rparr>])
        = Some (stringify s1 @ '' '' @ k @ '' '' @ stringify s2)"
    if "deref h a = Some s1" "deref h b = Some s2" for k
    using that
    by (simp add: facade_combine_eq deref_Some_iff stringify_at_def deref_snoc stringify_def)
  have p: "\<exists>h'. cssSelectorBuilder_combine a ''+'' b h = Some (Inr (length h), h') \<and>
            stringify_at (length h) h' = Some ''div#main + table#data''"
    if "deref h a = Some s1" "deref h b = Some s2"
      "stringify s1 = ''div#main''" "stringify s2 = ''table#data''"
    using f [OF that(1,2), of "''+''"] that(3,4) by simp
  from m f p show ?thesis by blast
qed

theorem combine_three_chunks_witness:
  "run [Facade (Element ''div''), Method 0 (Id ''main''),
        Facade (Element ''table''), Method 1 (Id ''data'')] [] =
     Some [\<lparr>arr = [''div'', ''#main''], order = [1, 2], hasElement = True, hasId = True,
            hasPseudoElement = False\<rparr>,
           \<lparr>arr = [''table'', ''#data''], order = [1, 2], hasElement = True, hasId = True,
            hasPseudoElement = False\<rparr>] \<and>
   (\<exists>h'. cssSelectorBuilder_combine 0 ''+'' 1
           [\<lparr>arr = [''div'', ''#main''], order = [1, 2], hasElement = True, hasId = True,
              hasPseudoElement = False\<rparr>,
            \<lparr>arr = [''table'', ''#data''], order = [1, 2], hasElement = True, hasId = True,
              hasPseudoElement = False\<rparr>] = Some (Inr 2, h') \<and>
         stringify_at 2 h' = Some ''div#main + table#data'') \<and>
   combine 1 0 ''~'' 1
       [\<lparr>arr = [''div'', ''#main''], order = [1, 2], hasElement = True, hasId = True,
          hasPseudoElement = False\<rparr>,
        \<lparr>arr = [''table'', ''#data''], order = [1, 2], hasElement = True, hasId = True,
          hasPseudoElement = False\<rparr>] =
     Some (Inr 1,
       [\<lparr>arr = [''div'', ''#main''], order = [1, 2], hasElement = True, hasId = True,
          hasPseudoElement = False\<rparr>,
        \<lparr>arr = [''div#main'', '' ~ '', ''table#data''], order = [1, 2], hasElement = True,
          hasId = True, hasPseudoElement = False\<rparr>]) \<and>
   stringify_at 1
       [\<lparr>arr = [''div'', ''#main''], order = [1, 2], hasElement = True, hasId = True,
          hasPseudoElement = False\<rparr>,
        \<lparr>arr = [''div#main'', '' ~ '', ''table#data''], order = [1, 2], hasElement = True,
          hasId = True, hasPseudoElement = False\<rparr>] = Some ''div#main ~ table#data''"
proof -
  let ?d = "\<lparr>arr = [''div'', ''#main''], order = [1, 2], hasElement = True, hasId = True,
            hasPseudoElement = False\<rparr>"
  let ?t = "\<lparr>arr = [''table'', ''#data''], order = [1, 2], hasElement = True, hasId = True,
            hasPseudoElement = False\<rparr>"
  let ?c = "\<lparr>arr = [''div#main'', '' ~ '', ''table#data''], order = [1, 2],
            hasElement = True, hasId = True, hasPseudoElement = False\<rparr>"
  have r: "run [Facade (Element ''div''), Method 0 (Id ''main''),
        Facade (Element ''table''), Method 1 (Id ''data'')] [] = Some [?d, ?t]"
    by (simp add: cssSelectorBuilder_element_def new_def invoke_def deref_def then_set_def
        assign_def eval_defs)
  have h: "deref [?d, ?t] 0 = Some ?d \<and> deref [?d, ?t] 1 = Some ?t \<and>
      stringify ?d = ''div#main'' \<and> stringify ?t = ''table#data''"
    by (simp add: deref_def stringify_def)
  have len: "length [?d, ?t] = 2" by simp
  from h combine_three_chunks [of "[?d, ?t]" 0 ?d 0 ?d 1 ?t "''+''"]
  have "\<exists>h'. cssSelectorBuilder_combine 0 ''+'' 1 [?d, ?t] = Some (Inr (length [?d, ?t]), h') \<and>
         stringify_at (length [?d, ?t]) h' = Some ''div#main + table#data''"
    by blast
  then have f: "\<exists>h'. cssSelectorBuilder_combine 0 ''+'' 1 [?d, ?t] = Some (Inr 2, h') \<and>
         stringify_at 2 h' = Some ''div#main + table#data''"
    unfolding len .
  have u: "[?d, ?t][1 := ?t\<lparr>arr := [stringify ?d, '' '' @ ''~'' @ '' '', stringify ?t]\<rparr>]
      = [?d, ?c]"
    by (simp add: stringify_def)
  have v: "stringify ?d @ '' '' @ ''~'' @ '' '' @ stringify ?t = ''div#main ~ table#data''"
    by (simp add: stringify_def)
  from h combine_three_chunks [of "[?d, ?t]" 1 ?t 0 ?d 1 ?t "''~''"]
  have "combine 1 0 ''~'' 1 [?d, ?t] =
      Some (Inr 1, [?d, ?t][1 := ?t\<lparr>arr := [stringify ?d, '' '' @ ''~'' @ '' '', stringify ?t]\<rparr>]) \<and>
    stringify_at 1 ([?d, ?t][1 := ?t\<lparr>arr := [stringify ?d, '' '' @ ''~'' @ '' '', stringify ?t]\<rparr>])
      = Some (stringify ?d @ '' '' @ ''~'' @ '' '' @ stringify ?t)"
    by blast
  then have m: "combine 1 0 ''~'' 1 [?d, ?t] = Some (Inr 1, [?d, ?c]) \<and>
      stringify_at 1 [?d, ?c] = Some ''div#main ~ table#data''"
    unfolding u v .
  from r f m show ?thesis by blast
qed

text \<open>
  Claim C7. A facade call makes a new instance: its address is no instance of the
  store before the call, the store after the call is the store before it with the one
  new instance at the end, and the call returns that address. The new instance is a new
  \<^verbatim>\<open>MySuperBaseElementSelector\<close> after the one matching call, which returned: for the six
  append functions the state the method leaves, for \<open>combine\<close> the three chunks in
  \<open>arr\<close>. So of two facade calls, with any calls in between, the second returns another
  address than the first and leaves the first's instance as it finds it.
\<close>

theorem facade_new_instance:
  "deref h (length h) = None \<and>
   facade c h = Some (Inr (length h), h @ [snd (append_fragment c MySuperBaseElementSelector)]) \<and>
   fst (append_fragment c MySuperBaseElementSelector) = None \<and>
   (a < length h \<and> b < length h \<longrightarrow>
      cssSelectorBuilder_combine a k b h =
        Some (Inr (length h),
          h @ [MySuperBaseElementSelector
                 \<lparr>arr := [stringify (h ! a), '' '' @ k @ '' '', stringify (h ! b)]\<rparr>])) \<and>
   (is_facade f1 \<and> is_facade f2 \<and> exec f1 h = Some (r1, h1) \<and> run cs h1 = Some h2 \<and>
    exec f2 h2 = Some (r2, h3) \<longrightarrow>
      r1 = Inr (length h) \<and> r2 = Inr (length h2) \<and> length h < length h2 \<and>
      deref h3 (length h) = deref h2 (length h))"
proof -
  have 1: "deref h (length h) = None" by (simp add: deref_def)
  have 2: "fst (append_fragment c MySuperBaseElementSelector) = None"
    by (simp add: append_fragment_new)
  have 3: "r1 = Inr (length h) \<and> r2 = Inr (length h2) \<and> length h < length h2 \<and>
      deref h3 (length h) = deref h2 (length h)"
    if f: "is_facade f1" "is_facade f2" and e1: "exec f1 h = Some (r1, h1)"
      and r: "run cs h1 = Some h2" and e2: "exec f2 h2 = Some (r2, h3)"
  proof -
    from exec_facade [OF f(1) e1] obtain s1 where s1: "r1 = Inr (length h)" "h1 = h @ [s1]"
      by blast
    from exec_facade [OF f(2) e2] obtain s2 where s2: "r2 = Inr (length h2)" "h3 = h2 @ [s2]"
      by blast
    from run_length [OF r] s1 have l: "length h < length h2" by simp
    with s1 s2 show ?thesis by (simp add: deref_def nth_append)
  qed
  from 1 2 3 show ?thesis by (simp add: facade_eq facade_combine_eq)
qed

theorem facade_new_instance_witness:
  "facade (Element ''div'') [] =
     Some (Inr 0, [\<lparr>arr = [''div''], order = [1], hasElement = True, hasId = False,
                    hasPseudoElement = False\<rparr>]) \<and>
   cssSelectorBuilder_combine 0 ''>'' 0
       [\<lparr>arr = [''div''], order = [1], hasElement = True, hasId = False,
          hasPseudoElement = False\<rparr>] =
     Some (Inr 1, [\<lparr>arr = [''div''], order = [1], hasElement = True, hasId = False,
                     hasPseudoElement = False\<rparr>,
                   \<lparr>arr = [''div'', '' > '', ''div''], order = [], hasElement = False,
                     hasId = False, hasPseudoElement = False\<rparr>]) \<and>
   exec (Facade (Class ''a'')) [] =
     Some (Inr 0, [\<lparr>arr = [''.a''], order = [3], hasElement = False, hasId = False,
                    hasPseudoElement = False\<rparr>]) \<and>
   run [Method 0 (Attr ''b'')]
       [\<lparr>arr = [''.a''], order = [3], hasElement = False, hasId = False,
          hasPseudoElement = False\<rparr>] =
     Some [\<lparr>arr = [''.a'', ''[b]''], order = [3, 4], hasElement = False, hasId = False,
             hasPseudoElement = False\<rparr>] \<and>
   exec (FacadeCombine 0 ''+'' 0)
       [\<lparr>arr = [''.a'', ''[b]''], order = [3, 4], hasElement = False, hasId = False,
          hasPseudoElement = False\<rparr>] =
     Some (Inr 1, [\<lparr>arr = [''.a'', ''[b]''], order = [3, 4], hasElement = False,
                     hasId = False, hasPseudoElement = False\<rparr>,
                   \<lparr>arr = [''.a[b]'', '' + '', ''.a[b]''], order = [], hasElement = False,
                     hasId = False, hasPseudoElement = False\<rparr>]) \<and>
   deref [\<lparr>arr = [''.a'', ''[b]''], order = [3, 4], hasElement = False,
             hasId = False, hasPseudoElement = False\<rparr>,
          \<lparr>arr = [''.a[b]'', '' + '', ''.a[b]''], order = [], hasElement = False,
             hasId = False, hasPseudoElement = False\<rparr>] 0 =
     deref [\<lparr>arr = [''.a'', ''[b]''], order = [3, 4], hasElement = False,
             hasId = False, hasPseudoElement = False\<rparr>] 0"
proof -
  let ?d = "\<lparr>arr = [''div''], order = [1], hasElement = True, hasId = False,
          hasPseudoElement = False\<rparr>"
  let ?dd = "\<lparr>arr = [''div'', '' > '', ''div''], order = [], hasElement = False,
          hasId = False, hasPseudoElement = False\<rparr>"
  let ?a = "\<lparr>arr = [''.a''], order = [3], hasElement = False, hasId = False,
          hasPseudoElement = False\<rparr>"
  let ?ab = "\<lparr>arr = [''.a'', ''[b]''], order = [3, 4], hasElement = False, hasId = False,
          hasPseudoElement = False\<rparr>"
  let ?c = "\<lparr>arr = [''.a[b]'', '' + '', ''.a[b]''], order = [], hasElement = False,
          hasId = False, hasPseudoElement = False\<rparr>"
  have a: "snd (append_fragment (Element ''div'') MySuperBaseElementSelector) = ?d"
    by (simp add: eval_defs)
  have b: "MySuperBaseElementSelector
       \<lparr>arr := [stringify ([?d] ! 0), '' '' @ ''>'' @ '' '', stringify ([?d] ! 0)]\<rparr> = ?dd"
    by (simp add: eval_defs)
  have c: "(0::nat) < length [?d] \<and> (0::nat) < length [?d]" by simp
  from facade_new_instance [of "[]" "Element ''div''"] a
  have 1: "facade (Element ''div'') [] = Some (Inr 0, [?d])" by simp
  from facade_new_instance [of "[?d]" _ 0 0 "''>''"] c
  have "cssSelectorBuilder_combine 0 ''>'' 0 [?d] =
        Some (Inr (length [?d]),
          [?d] @ [MySuperBaseElementSelector
       \<lparr>arr := [stringify ([?d] ! 0), '' '' @ ''>'' @ '' '', stringify ([?d] ! 0)]\<rparr>])"
    by blast
  then have 2: "cssSelectorBuilder_combine 0 ''>'' 0 [?d] = Some (Inr 1, [?d, ?dd])"
    unfolding b by simp
  have f: "is_facade (Facade (Class ''a'')) \<and> is_facade (FacadeCombine 0 ''+'' 0)" by simp
  have e1: "exec (Facade (Class ''a'')) [] = Some (Inr 0, [?a])"
    by (simp add: cssSelectorBuilder_class_def new_def invoke_def deref_def eval_defs)
  have r: "run [Method 0 (Attr ''b'')] [?a] = Some [?ab]"
    by (simp add: invoke_def deref_def eval_defs)
  have e2: "exec (FacadeCombine 0 ''+'' 0) [?ab] = Some (Inr 1, [?ab, ?c])"
    by (simp add: cssSelectorBuilder_combine_def new_def combine_def stringify_at_def
        assign_def deref_def eval_defs)
  from f e1 r e2
    facade_new_instance [of "[]" _ _ _ _ "Facade (Class ''a'')" "FacadeCombine 0 ''+'' 0"
      "Inr 0" "[?a]" "[Method 0 (Attr ''b'')]" "[?ab]" "Inr 1" "[?ab, ?c]"]
  have "deref [?ab, ?c] (length ([]::heap)) = deref [?ab] (length ([]::heap))" by blast
  then have 3: "deref [?ab, ?c] 0 = deref [?ab] 0" by simp
  from 1 2 e1 r e2 3 show ?thesis by blast
qed

text \<open>
  Claim C10, as the code has it. \<open>combine\<close> assigns \<open>arr\<close> of its receiver and nothing
  else: every instance other than the receiver, so every argument that is not the
  receiver itself, is after the call as it was before, and its \<open>stringify\<close> gives the
  same text. The facade's \<open>combine\<close> has a new instance as receiver, so it changes
  neither argument.
\<close>

theorem combine_frame:
  "(combine this a k b h = Some (r, h') \<and> x \<noteq> this \<longrightarrow>
      deref h' x = deref h x \<and> stringify_at x h' = stringify_at x h) \<and>
   (cssSelectorBuilder_combine a k b h = Some (r', h'') \<longrightarrow>
      deref h'' a = deref h a \<and> deref h'' b = deref h b \<and>
      stringify_at a h'' = stringify_at a h \<and> stringify_at b h'' = stringify_at b h)"
  by (auto simp: combine_eq facade_combine_eq stringify_at_def deref_def nth_append
      split: if_splits)

theorem combine_frame_witness:
  "combine 0 1 ''~'' 2
     [\<lparr>arr = [], order = [], hasElement = False, hasId = False, hasPseudoElement = False\<rparr>,
      \<lparr>arr = [''tr''], order = [1], hasElement = True, hasId = False,
        hasPseudoElement = False\<rparr>,
      \<lparr>arr = [''td''], order = [1], hasElement = True, hasId = False,
        hasPseudoElement = False\<rparr>] =
   Some (Inr 0,
     [\<lparr>arr = [''tr'', '' ~ '', ''td''], order = [], hasElement = False, hasId = False,
        hasPseudoElement = False\<rparr>,
      \<lparr>arr = [''tr''], order = [1], hasElement = True, hasId = False,
        hasPseudoElement = False\<rparr>,
      \<lparr>arr = [''td''], order = [1], hasElement = True, hasId = False,
        hasPseudoElement = False\<rparr>]) \<and>
   stringify_at 1
     [\<lparr>arr = [''tr'', '' ~ '', ''td''], order = [], hasElement = False, hasId = False,
        hasPseudoElement = False\<rparr>,
      \<lparr>arr = [''tr''], order = [1], hasElement = True, hasId = False,
        hasPseudoElement = False\<rparr>,
      \<lparr>arr = [''td''], order = [1], hasElement = True, hasId = False,
        hasPseudoElement = False\<rparr>] =
   stringify_at 1
     [\<lparr>arr = [], order = [], hasElement = False, hasId = False, hasPseudoElement = False\<rparr>,
      \<lparr>arr = [''tr''], order = [1], hasElement = True, hasId = False,
        hasPseudoElement = False\<rparr>,
      \<lparr>arr = [''td''], order = [1], hasElement = True, hasId = False,
        hasPseudoElement = False\<rparr>] \<and>
   cssSelectorBuilder_combine 0 ''>'' 1
     [\<lparr>arr = [''tr''], order = [1], hasElement = True, hasId = False,
        hasPseudoElement = False\<rparr>,
      \<lparr>arr = [''td''], order = [1], hasElement = True, hasId = False,
        hasPseudoElement = False\<rparr>] =
   Some (Inr 2,
     [\<lparr>arr = [''tr''], order = [1], hasElement = True, hasId = False,
        hasPseudoElement = False\<rparr>,
      \<lparr>arr = [''td''], order = [1], hasElement = True, hasId = False,
        hasPseudoElement = False\<rparr>,
      \<lparr>arr = [''tr'', '' > '', ''td''], order = [], hasElement = False, hasId = False,
        hasPseudoElement = False\<rparr>]) \<and>
   stringify_at 0
     [\<lparr>arr = [''tr''], order = [1], hasElement = True, hasId = False,
        hasPseudoElement = False\<rparr>,
      \<lparr>arr = [''td''], order = [1], hasElement = True, hasId = False,
        hasPseudoElement = False\<rparr>,
      \<lparr>arr = [''tr'', '' > '', ''td''], order = [], hasElement = False, hasId = False,
        hasPseudoElement = False\<rparr>] =
   stringify_at 0
     [\<lparr>arr = [''tr''], order = [1], hasElement = True, hasId = False,
        hasPseudoElement = False\<rparr>,
      \<lparr>arr = [''td''], order = [1], hasElement = True, hasId = False,
        hasPseudoElement = False\<rparr>]"
proof -
  let ?n = "\<lparr>arr = [], order = [], hasElement = False, hasId = False,
     hasPseudoElement = False\<rparr>"
  let ?r = "\<lparr>arr = [''tr''], order = [1], hasElement = True, hasId = False,
        hasPseudoElement = False\<rparr>"
  let ?d = "\<lparr>arr = [''td''], order = [1], hasElement = True, hasId = False,
        hasPseudoElement = False\<rparr>"
  let ?c = "\<lparr>arr = [''tr'', '' ~ '', ''td''], order = [], hasElement = False, hasId = False,
        hasPseudoElement = False\<rparr>"
  let ?g = "\<lparr>arr = [''tr'', '' > '', ''td''], order = [], hasElement = False, hasId = False,
        hasPseudoElement = False\<rparr>"
  have e: "combine 0 1 ''~'' 2 [?n, ?r, ?d] = Some (Inr 0, [?c, ?r, ?d])"
    by (simp add: combine_def stringify_at_def assign_def deref_def stringify_def)
  have n: "(1::nat) \<noteq> 0" by simp
  from e n combine_frame [of 0 1 "''~''" 2 "[?n, ?r, ?d]" "Inr 0" "[?c, ?r, ?d]" 1]
  have 1: "stringify_at 1 [?c, ?r, ?d] = stringify_at 1 [?n, ?r, ?d]" by blast
  have f: "cssSelectorBuilder_combine 0 ''>'' 1 [?r, ?d] = Some (Inr 2, [?r, ?d, ?g])"
    by (simp add: cssSelectorBuilder_combine_def new_def combine_def stringify_at_def
        assign_def deref_def eval_defs)
  from f combine_frame [where a = 0 and k = "''>''" and b = 1 and h = "[?r, ?d]"
      and r' = "Inr 2" and h'' = "[?r, ?d, ?g]"]
  have 2: "stringify_at 0 [?r, ?d, ?g] = stringify_at 0 [?r, ?d]" by blast
  from e 1 f 2 show ?thesis by blast
qed

text \<open>
  The claim as worded (the method never changes an argument) fails when an argument is
  the receiver: with \<open>a\<close> made by \<^verbatim>\<open>element('div')\<close> and \<open>b\<close> by \<^verbatim>\<open>element('p')\<close>,
  the call \<^verbatim>\<open>a.combine(a, '>', b)\<close> leaves \<open>a.stringify()\<close> as \<^verbatim>\<open>'div > p'\<close>, and it
  was \<^verbatim>\<open>'div'\<close>.
\<close>

theorem combine_changes_argument:
  "run [Facade (Element ''div''), Facade (Element ''p'')] [] =
     Some [\<lparr>arr = [''div''], order = [1], hasElement = True, hasId = False,
             hasPseudoElement = False\<rparr>,
           \<lparr>arr = [''p''], order = [1], hasElement = True, hasId = False,
             hasPseudoElement = False\<rparr>] \<and>
   stringify_at 0
     [\<lparr>arr = [''div''], order = [1], hasElement = True, hasId = False,
        hasPseudoElement = False\<rparr>,
      \<lparr>arr = [''p''], order = [1], hasElement = True, hasId = False,
        hasPseudoElement = False\<rparr>] = Some ''div'' \<and>
   combine 0 0 ''>'' 1
     [\<lparr>arr = [''div''], order = [1], hasElement = True, hasId = False,
        hasPseudoElement = False\<rparr>,
      \<lparr>arr = [''p''], order = [1], hasElement = True, hasId = False,
        hasPseudoElement = False\<rparr>] =
   Some (Inr 0,
     [\<lparr>arr = [''div'', '' > '', ''p''], order = [1], hasElement = True, hasId = False,
        hasPseudoElement = False\<rparr>,
      \<lparr>arr = [''p''], order = [1], hasElement = True, hasId = False,
        hasPseudoElement = False\<rparr>]) \<and>
   stringify_at 0
     [\<lparr>arr = [''div'', '' > '', ''p''], order = [1], hasElement = True, hasId = False,
        hasPseudoElement = False\<rparr>,
      \<lparr>arr = [''p''], order = [1], hasElement = True, hasId = False,
        hasPseudoElement = False\<rparr>] = Some ''div > p''"
  by (simp add: cssSelectorBuilder_element_def new_def invoke_def then_set_def
      combine_def stringify_at_def assign_def deref_def eval_defs)

subsection \<open>The ranks of every instance of a program\<close>

lemma sorted_le_last: "sorted xs \<Longrightarrow> x \<in> set xs \<Longrightarrow> x \<le> last (xs :: int list)"
  by (induction xs) auto

lemma sorted_snoc_last:
  "sorted xs \<Longrightarrow> xs = [] \<or> last xs \<le> (r::int) \<Longrightarrow> sorted (xs @ [r])"
  using sorted_le_last [of xs] by (fastforce simp: sorted_append)

lemma append_fragment_sorted:
  "sorted (order this) \<Longrightarrow> sorted (order (snd (append_fragment c this)))"
proof -
  assume s: "sorted (order this)"
  have "sorted (order this @ [rank c])"
    if "\<not> (order this \<noteq> [] \<and> rank c < last (order this))"
    using s that by (intro sorted_snoc_last) auto
  with s show ?thesis by (simp add: append_fragment_eq)
qed

lemma set_updateD: "s \<in> set (h[i := x]) \<Longrightarrow> s = x \<or> s \<in> set h"
  using set_update_subset_insert [of h i x] by blast

text \<open>
  A call adds one instance, a new one after one call on it, or makes one call on an
  instance of the store.
\<close>

lemma exec_cases:
  assumes "exec c h = Some (r, h')"
  shows "(\<exists>x. h' = h @ [apply_op x MySuperBaseElementSelector]) \<or>
         (\<exists>this x. this < length h \<and> h' = h[this := apply_op x (h ! this)])"
proof (cases c)
  case (Facade x)
  with assms have "h' = h @ [apply_op (Append x) MySuperBaseElementSelector]"
    by (simp add: facade_eq)
  then show ?thesis by blast
next
  case (FacadeCombine a k b)
  with assms have "h' = h @ [apply_op (Combined (stringify (h ! a)) k (stringify (h ! b)))
      MySuperBaseElementSelector]"
    by (simp add: facade_combine_eq split: if_splits)
  then show ?thesis by blast
next
  case (Method this x)
  with assms have "this < length h \<and> h' = h[this := apply_op (Append x) (h ! this)]"
    by (simp add: invoke_def deref_def split: if_splits prod.splits option.splits)
  then show ?thesis by blast
next
  case (MethodCombine this a k b)
  with assms have "this < length h \<and>
     h' = h[this := apply_op (Combined (stringify (h ! a)) k (stringify (h ! b))) (h ! this)]"
    by (simp add: combine_eq split: if_splits)
  then show ?thesis by blast
qed

text \<open>
  So a property of a new instance that every call on an instance keeps holds of every
  instance of every store a program reaches.
\<close>

lemma exec_invariant:
  assumes e: "exec c h = Some (r, h')" and inv: "\<forall>s\<in>set h. P s"
    and new: "\<And>x. P (apply_op x MySuperBaseElementSelector)"
    and step: "\<And>x s. P s \<Longrightarrow> P (apply_op x s)"
  shows "\<forall>s\<in>set h'. P s"
proof
  fix s assume s: "s \<in> set h'"
  from exec_cases [OF e] consider
      (fresh) x where "h' = h @ [apply_op x MySuperBaseElementSelector]"
    | (call) this x where "this < length h" "h' = h[this := apply_op x (h ! this)]"
    by blast
  then show "P s"
  proof cases
    case fresh
    with s inv new show ?thesis by auto
  next
    case call
    from call(1) inv have "P (h ! this)" by simp
    then have "P (apply_op x (h ! this))" by (rule step)
    moreover from s call(2) have "s = apply_op x (h ! this) \<or> s \<in> set h"
      by (simp add: set_updateD)
    ultimately show ?thesis using inv by blast
  qed
qed

lemma run_invariant:
  assumes "run cs h = Some h'" and "\<forall>s\<in>set h. P s"
    and new: "\<And>x. P (apply_op x MySuperBaseElementSelector)"
    and step: "\<And>x s. P s \<Longrightarrow> P (apply_op x s)"
  shows "\<forall>s\<in>set h'. P s"
  using assms(1,2)
proof (induction cs arbitrary: h)
  case Nil
  then show ?case by simp
next
  case (Cons c cs)
  from Cons.prems(1) obtain r h1 where e: "exec c h = Some (r, h1)" and r: "run cs h1 = Some h'"
    by (auto split: option.splits)
  from exec_invariant [of c h r h1 P, OF e Cons.prems(2) new step]
  have "\<forall>s\<in>set h1. P s" .
  with Cons.IH [OF r] show ?case by blast
qed

lemma apply_op_sorted: "sorted (order this) \<Longrightarrow> sorted (order (apply_op x this))"
  by (cases x) (simp_all add: append_fragment_sorted)

text \<open>
  Every instance a program reaches is a new instance after a history of calls, so what
  holds of \<open>history ops\<close> for every \<open>ops\<close> holds of every such instance.
\<close>

lemma history_snoc: "history (ops @ [x]) = apply_op x (history ops)"
  by (simp add: history_def)

lemma run_history:
  assumes "run cs [] = Some h"
  shows "\<forall>s\<in>set h. \<exists>ops. s = history ops"
proof (rule run_invariant [OF assms])
  show "\<forall>s\<in>set []. \<exists>ops. s = history ops" by simp
  show "\<exists>ops. apply_op x MySuperBaseElementSelector = history ops" for x
    by (rule exI [of _ "[x]"]) (simp add: history_def)
  show "\<exists>ops. apply_op x s = history ops" if "\<exists>ops. s = history ops" for x s
  proof -
    from that obtain ops where "s = history ops" ..
    then have "apply_op x s = history (ops @ [x])" by (simp add: history_snoc)
    then show ?thesis ..
  qed
qed

lemma run_append:
  "run (cs @ ds) h = (case run cs h of None \<Rightarrow> None | Some h1 \<Rightarrow> run ds h1)"
  by (induction cs arbitrary: h) (auto split: option.splits)

text \<open>
  Claim C6. After any sequence of calls from the empty store (facade calls, append calls
  that return or throw, \<open>combine\<close> on any instance), the ranks recorded in \<open>order\<close> of
  every instance are non-decreasing. Every prefix of a run is a run (\<open>run_append\<close>),
  so this holds after each call.
\<close>

theorem ranks_never_decrease:
  assumes "run cs [] = Some h"
  shows "\<forall>s\<in>set h. sorted (order s)"
proof (rule run_invariant [OF assms])
  show "\<forall>s\<in>set []. sorted (order s)" by simp
  show "sorted (order (apply_op x MySuperBaseElementSelector))" for x
    by (rule apply_op_sorted) (simp add: MySuperBaseElementSelector_def)
  show "sorted (order (apply_op x s))" if "sorted (order s)" for x s
    using that by (rule apply_op_sorted)
qed

theorem ranks_never_decrease_witness:
  "run [Facade (Class ''a''), Method 0 (Attr ''b''), Method 0 (Class ''c''),
        MethodCombine 0 0 ''+'' 0, Method 0 (PseudoClass ''p'')] [] =
     Some [\<lparr>arr = [''.a[b].c'', '' + '', ''.a[b].c'', '':p''], order = [3, 4, 5],
             hasElement = False, hasId = False, hasPseudoElement = False\<rparr>] \<and>
   sorted (order \<lparr>arr = [''.a[b].c'', '' + '', ''.a[b].c'', '':p''], order = [3, 4, 5],
             hasElement = False, hasId = False, hasPseudoElement = False\<rparr>)"
proof -
  let ?s = "\<lparr>arr = [''.a[b].c'', '' + '', ''.a[b].c'', '':p''], order = [3, 4, 5],
             hasElement = False, hasId = False, hasPseudoElement = False\<rparr>"
  have r: "run [Facade (Class ''a''), Method 0 (Attr ''b''), Method 0 (Class ''c''),
        MethodCombine 0 0 ''+'' 0, Method 0 (PseudoClass ''p'')] [] = Some [?s]"
    by (simp add: cssSelectorBuilder_class_def new_def invoke_def combine_def
        stringify_at_def assign_def deref_def eval_defs)
  from ranks_never_decrease [OF r] have "\<forall>s\<in>set [?s]. sorted (order s)" .
  then have "sorted (order ?s)" by (rule bspec) simp
  with r show ?thesis by blast
qed

subsection \<open>Encoding what \<^verbatim>\<open>fromJSON\<close> decoded\<close>








end
